theory Spec2Isabelle
  imports Main "HOL-Library.Word"
begin

unbundle bit_operations_syntax

section \<open>pkg/ipcache/types: resource attribution and metadata values\<close>

text \<open>
  A shallow embedding of \<^verbatim>\<open>pkg/ipcache/types/types.go\<close>. Go strings are byte
  sequences, modelled as \<^typ>\<open>string\<close> (a list of 8-bit characters). A defined type
  over a basic type (\<^verbatim>\<open>type ResourceID string\<close>) is a datatype with one constructor:
  the constructor is the Go conversion into the type, its selector the conversion back.
\<close>

subsection \<open>Run-time panics\<close>

text \<open>
  Indexing a slice out of range panics in Go. The embedding makes the bounds check of
  \<^verbatim>\<open>a[i]\<close> explicit, so that a function which indexes returns \<open>Inl\<close> where the
  program would panic.
\<close>

datatype panic = IndexOutOfRange

definition index :: "'a list \<Rightarrow> nat \<Rightarrow> panic + 'a" where
  "index a i = (if i < length a then Inr (a ! i) else Inl IndexOutOfRange)"

subsection \<open>The standard library functions the package calls\<close>

text \<open>
  \<^verbatim>\<open>strings.Index(s, sep)\<close> for a separator of one byte: the position of the first
  occurrence, \<open>None\<close> for Go's \<open>-1\<close>.
\<close>

fun IndexByte :: "string \<Rightarrow> char \<Rightarrow> nat option" where
  "IndexByte [] c = None"
| "IndexByte (x # xs) c = (if x = c then Some 0 else map_option Suc (IndexByte xs c))"

text \<open>
  The loop of \<^verbatim>\<open>strings.genSplit\<close> (with \<^verbatim>\<open>sepSave = 0\<close> and a separator of
  length 1):
  \<^verbatim>\<open>
    for i < n {
        m := Index(s, sep)
        if m < 0 { break }
        a[i] = s[:m+sepSave]
        s = s[m+len(sep):]
        i++
    }
    a[i] = s
    return a[:i+1]
  \<close>
  The first argument counts the iterations that are left (\<open>n - i\<close>).
\<close>

fun split_loop :: "nat \<Rightarrow> string \<Rightarrow> char \<Rightarrow> string list" where
  "split_loop 0 s sep = [s]"
| "split_loop (Suc k) s sep =
     (case IndexByte s sep of
        None \<Rightarrow> [s]
      | Some m \<Rightarrow> take m s # split_loop k (drop (m + 1) s) sep)"

text \<open>
  \<^verbatim>\<open>strings.SplitN(s, sep, n)\<close> for a separator of one byte, after
  \<^verbatim>\<open>genSplit(s, sep, 0, n)\<close>: \<open>n = 0\<close> gives no parts, a negative \<open>n\<close> means every
  part (\<^verbatim>\<open>n = Count(s, sep) + 1\<close>), \<open>n\<close> is clamped to \<^verbatim>\<open>len(s) + 1\<close>, and the loop
  runs at most \<open>n - 1\<close> times, the last part being the unsplit remainder.
\<close>

definition SplitN :: "string \<Rightarrow> char \<Rightarrow> int \<Rightarrow> string list" where
  "SplitN s sep n =
     (if n = 0 then []
      else
        let n1 = (if n < 0 then int (count_list s sep) + 1 else n);
            n2 = (if n1 > int (length s) + 1 then int (length s) + 1 else n1)
        in split_loop (nat (n2 - 1)) s sep)"

text \<open>
  \<^verbatim>\<open>strings.Builder\<close>: the accumulated bytes. \<^verbatim>\<open>Grow\<close> only reserves capacity
  (it panics on a negative count, which a sum of lengths never is);
  \<^verbatim>\<open>WriteRune\<close> appends a rune below \<^verbatim>\<open>utf8.RuneSelf\<close> as a single byte, and
  \<^verbatim>\<open>'/'\<close> (0x2F), the only rune this package writes, is such a rune.
\<close>

type_synonym Builder = string

definition Builder_zero :: Builder where
  "Builder_zero = []"

definition Grow :: "Builder \<Rightarrow> nat \<Rightarrow> Builder" where
  "Grow b n = b"

definition WriteString :: "Builder \<Rightarrow> string \<Rightarrow> Builder" where
  "WriteString b s = b @ s"

definition WriteRune :: "Builder \<Rightarrow> char \<Rightarrow> Builder" where
  "WriteRune b r = b @ [r]"

definition Builder_String :: "Builder \<Rightarrow> string" where
  "Builder_String b = b"

text \<open>
  \<^verbatim>\<open>strconv.Itoa(i)\<close>, that is \<^verbatim>\<open>FormatInt(int64(i), 10)\<close>: the digits of the
  magnitude, most significant first, taken from the table \<^verbatim>\<open>"0123456789"\<close> by
  repeated division by 10, after a minus sign for a negative number.
\<close>

definition digits :: string where
  "digits = ''0123456789''"

function formatDec :: "nat \<Rightarrow> string" where
  "formatDec u = (if u < 10 then [digits ! u] else formatDec (u div 10) @ [digits ! (u mod 10)])"
  by pat_completeness auto
termination
  by (relation "measure (\<lambda>u. u)") auto

declare formatDec.simps [simp del]

definition Itoa :: "int \<Rightarrow> string" where
  "Itoa i = (if i < 0 then CHR ''-'' # formatDec (nat (- i)) else formatDec (nat i))"

subsection \<open>ResourceID and ResourceKind\<close>

datatype ResourceID = ResourceID (string_of_ResourceID: string)

datatype ResourceKind = ResourceKind (string_of_ResourceKind: string)

definition ResourceKindCCNP :: ResourceKind where
  "ResourceKindCCNP = ResourceKind ''ccnp''"

definition ResourceKindCIDRGroup :: ResourceKind where
  "ResourceKindCIDRGroup = ResourceKind ''cidrgroup''"

definition ResourceKindCNP :: ResourceKind where
  "ResourceKindCNP = ResourceKind ''cnp''"

definition ResourceKindDaemon :: ResourceKind where
  "ResourceKindDaemon = ResourceKind ''daemon''"

definition ResourceKindEndpoint :: ResourceKind where
  "ResourceKindEndpoint = ResourceKind ''ep''"

definition ResourceKindFile :: ResourceKind where
  "ResourceKindFile = ResourceKind ''file''"

definition ResourceKindNetpol :: ResourceKind where
  "ResourceKindNetpol = ResourceKind ''netpol''"

definition ResourceKindNode :: ResourceKind where
  "ResourceKindNode = ResourceKind ''node''"

text \<open>The kinds declared in the \<^verbatim>\<open>var\<close> block above: the defined \<open>ResourceKind\<close> values.\<close>

definition defined_kinds :: "ResourceKind set" where
  "defined_kinds =
     {ResourceKindCCNP, ResourceKindCIDRGroup, ResourceKindCNP, ResourceKindDaemon,
      ResourceKindEndpoint, ResourceKindFile, ResourceKindNetpol, ResourceKindNode}"

text \<open>
  \<^verbatim>\<open>
  func NewResourceID(kind ResourceKind, namespace, name string) ResourceID {
      str := strings.Builder{}
      str.Grow(len(kind) + 1 + len(namespace) + 1 + len(name))
      str.WriteString(string(kind))
      str.WriteRune('/')
      str.WriteString(namespace)
      str.WriteRune('/')
      str.WriteString(name)
      return ResourceID(str.String())
  }
  \<close>
\<close>

definition NewResourceID :: "ResourceKind \<Rightarrow> string \<Rightarrow> string \<Rightarrow> ResourceID" where
  "NewResourceID kind namespace name =
     (let str0 = Builder_zero;
          str1 = Grow str0 (length (string_of_ResourceKind kind) + 1 + length namespace + 1 + length name);
          str2 = WriteString str1 (string_of_ResourceKind kind);
          str3 = WriteRune str2 CHR ''/'';
          str4 = WriteString str3 namespace;
          str5 = WriteRune str4 CHR ''/'';
          str6 = WriteString str5 name
      in ResourceID (Builder_String str6))"

text \<open>
  \<^verbatim>\<open>
  func (r ResourceID) Namespace() string {
      parts := strings.SplitN(string(r), "/", 3)
      if len(parts) < 2 {
          return ""
      }
      return parts[1]
  }
  \<close>
  The result is \<open>Inr\<close> of the returned string, or \<open>Inl\<close> of the panic of \<^verbatim>\<open>parts[1]\<close>.
\<close>

definition Namespace :: "ResourceID \<Rightarrow> panic + string" where
  "Namespace r =
     (let parts = SplitN (string_of_ResourceID r) CHR ''/'' 3
      in if length parts < 2 then Inr '''' else index parts 1)"

subsection \<open>EncryptKey\<close>

text \<open>\<^verbatim>\<open>type EncryptKey uint8\<close>, \<^verbatim>\<open>const EncryptKeyEmpty = EncryptKey(0)\<close>.\<close>

datatype EncryptKey = EncryptKey (uint8_of_EncryptKey: "8 word")

definition EncryptKeyEmpty :: EncryptKey where
  "EncryptKeyEmpty = EncryptKey 0"

definition EncryptKey_IsValid :: "EncryptKey \<Rightarrow> bool" where
  "EncryptKey_IsValid e = (e \<noteq> EncryptKeyEmpty)"

definition EncryptKey_Uint8 :: "EncryptKey \<Rightarrow> 8 word" where
  "EncryptKey_Uint8 e = uint8_of_EncryptKey e"

text \<open>\<^verbatim>\<open>strconv.Itoa(int(e))\<close>: the conversion to \<^verbatim>\<open>int\<close> reads the byte unsigned.\<close>

definition EncryptKey_String :: "EncryptKey \<Rightarrow> string" where
  "EncryptKey_String e = Itoa (uint (uint8_of_EncryptKey e))"

subsection \<open>RequestedIdentity\<close>

text \<open>
  \<^verbatim>\<open>type RequestedIdentity identity.NumericIdentity\<close>. The declaration of
  \<^verbatim>\<open>identity.NumericIdentity\<close> lies outside this package: it is an integer type,
  taken here as the parameter \<open>'n\<close> (any type with a zero, such as \<^typ>\<open>32 word\<close>).
  A value of that type stands for itself, so \<^verbatim>\<open>identity.NumericIdentity(v)\<close> is \<open>v\<close>.
\<close>

datatype 'n RequestedIdentity = RequestedIdentity (NumericIdentity_of_RequestedIdentity: 'n)

text \<open>\<^verbatim>\<open>return id != 0\<close>: the constant \<open>0\<close> takes the type of \<open>id\<close>.\<close>

definition RequestedIdentity_IsValid :: "'n::zero RequestedIdentity \<Rightarrow> bool" where
  "RequestedIdentity_IsValid rid = (rid \<noteq> RequestedIdentity 0)"

definition ID :: "'n RequestedIdentity \<Rightarrow> 'n" where
  "ID rid = NumericIdentity_of_RequestedIdentity rid"

subsection \<open>EndpointFlags\<close>

record EndpointFlags =
  isInit :: bool
  flagSkipTunnel :: bool

text \<open>The zero value of the struct: what \<^verbatim>\<open>EndpointFlags{}\<close> and \<^verbatim>\<open>var e EndpointFlags\<close> give.\<close>

definition EndpointFlags_zero :: EndpointFlags where
  "EndpointFlags_zero = \<lparr>isInit = False, flagSkipTunnel = False\<rparr>"

text \<open>The pointer receiver is mutated in place: the model returns the new value.\<close>

definition SetSkipTunnel :: "EndpointFlags \<Rightarrow> bool \<Rightarrow> EndpointFlags" where
  "SetSkipTunnel e skip = (e\<lparr>isInit := True\<rparr>)\<lparr>flagSkipTunnel := skip\<rparr>"

definition EndpointFlags_IsValid :: "EndpointFlags \<Rightarrow> bool" where
  "EndpointFlags_IsValid e = isInit e"

text \<open>\<^verbatim>\<open>const ( FlagSkipTunnel uint8 = 1 << iota )\<close>, the first constant of its block.\<close>

definition FlagSkipTunnel :: "8 word" where
  "FlagSkipTunnel = push_bit 0 1"

definition EndpointFlags_Uint8 :: "EndpointFlags \<Rightarrow> 8 word" where
  "EndpointFlags_Uint8 e =
     (let flags = 0
      in if flagSkipTunnel e then flags OR FlagSkipTunnel else flags)"

text \<open>
  The method set of the type, and a history of calls on one value. The methods with a
  value receiver work on a copy and leave the value as it is.
\<close>

datatype EndpointFlags_call = Call_SetSkipTunnel bool | Call_IsValid | Call_Uint8

fun call :: "EndpointFlags \<Rightarrow> EndpointFlags_call \<Rightarrow> EndpointFlags" where
  "call e (Call_SetSkipTunnel skip) = SetSkipTunnel e skip"
| "call e Call_IsValid = e"
| "call e Call_Uint8 = e"

definition calls :: "EndpointFlags \<Rightarrow> EndpointFlags_call list \<Rightarrow> EndpointFlags" where
  "calls e cs = foldl call e cs"

subsection \<open>Reading a decimal string\<close>

text \<open>
  What "the decimal string of \<open>k\<close>" means, from the reader's side: a string of the
  characters \<open>0\<close> to \<open>9\<close> denotes the number its digits spell in base 10, the most
  significant digit first.
\<close>

definition digit_value :: "char \<Rightarrow> nat" where
  "digit_value c = of_char c - 48"

definition decimal_value :: "string \<Rightarrow> nat" where
  "decimal_value s = foldl (\<lambda>acc c. 10 * acc + digit_value c) 0 s"

section \<open>Splitting on the separator\<close>

lemma IndexByte_None: "IndexByte s c = None \<longleftrightarrow> c \<notin> set s"
  by (induction s) auto

lemma IndexByte_Some:
  "IndexByte s c = Some m \<Longrightarrow>
     m < length s \<and> take m s = takeWhile (\<lambda>x. x \<noteq> c) s \<and>
     drop (Suc m) s = tl (dropWhile (\<lambda>x. x \<noteq> c) s)"
proof (induction s arbitrary: m)
  case Nil
  then show ?case by simp
next
  case (Cons x xs)
  show ?case
  proof (cases "x = c")
    case True
    with Cons.prems show ?thesis by simp
  next
    case False
    with Cons.prems obtain m' where m': "IndexByte xs c = Some m'" "m = Suc m'"
      by auto
    from Cons.IH [OF m'(1)] m'(2) False show ?thesis by simp
  qed
qed

lemma split_loop_clamp:
  "length s \<le> j \<Longrightarrow> length s \<le> k \<Longrightarrow> split_loop j s c = split_loop k s c"
proof (induction j arbitrary: k s)
  case 0
  then show ?case by (cases k) simp_all
next
  case (Suc j)
  show ?case
  proof (cases k)
    case 0
    with Suc.prems show ?thesis by simp
  next
    case (Suc k')
    show ?thesis
    proof (cases "IndexByte s c")
      case None
      with Suc show ?thesis by simp
    next
      case (Some m)
      from IndexByte_Some [OF Some] have "m < length s" by simp
      with Suc.prems Suc have "length (drop (m + 1) s) \<le> j" "length (drop (m + 1) s) \<le> k'"
        by simp_all
      from Suc.IH [OF this] Some Suc show ?thesis by simp
    qed
  qed
qed

lemma SplitN_3: "SplitN s c 3 = split_loop 2 s c"
proof (cases "2 \<le> length s")
  case True
  then have "nat (3 - 1) = (2::nat)" by simp
  with True show ?thesis by (simp add: SplitN_def Let_def)
next
  case False
  then have "SplitN s c 3 = split_loop (length s) s c"
    by (simp add: SplitN_def Let_def)
  also have "\<dots> = split_loop 2 s c"
    using False by (intro split_loop_clamp) simp_all
  finally show ?thesis .
qed

lemma split_loop_2:
  "split_loop 2 s c =
     (if c \<notin> set s then [s]
      else let a = takeWhile (\<lambda>x. x \<noteq> c) s; rest = tl (dropWhile (\<lambda>x. x \<noteq> c) s)
           in if c \<notin> set rest then [a, rest]
              else [a, takeWhile (\<lambda>x. x \<noteq> c) rest, tl (dropWhile (\<lambda>x. x \<noteq> c) rest)])"
proof -
  have two: "(2::nat) = Suc (Suc 0)" by simp
  show ?thesis
  proof (cases "IndexByte s c")
    case None
    then have "c \<notin> set s" using IndexByte_None [of s c] by simp
    with None show ?thesis by (simp add: two)
  next
    case (Some m)
    note m = IndexByte_Some [OF Some]
    from Some have in_s: "c \<in> set s" using IndexByte_None [of s c] by simp
    show ?thesis
    proof (cases "IndexByte (drop (Suc m) s) c")
      case None
      with Some m in_s show ?thesis
        using IndexByte_None [of "drop (Suc m) s" c] by (simp add: two Let_def)
    next
      case inner: (Some m')
      note m' = IndexByte_Some [OF inner]
      from inner have "c \<in> set (drop (Suc m) s)"
        using IndexByte_None [of "drop (Suc m) s" c] by simp
      with Some inner m m' in_s show ?thesis
        by (simp add: two Let_def)
    qed
  qed
qed

lemma Namespace_no_sep:
  assumes "CHR ''/'' \<notin> set s"
  shows "Namespace (ResourceID s) = Inr []"
  using assms by (simp add: Namespace_def SplitN_3 split_loop_2)

lemma Namespace_sep:
  assumes "CHR ''/'' \<in> set s"
  shows "Namespace (ResourceID s) =
     Inr (takeWhile (\<lambda>x. x \<noteq> CHR ''/'') (tl (dropWhile (\<lambda>x. x \<noteq> CHR ''/'') s)))"
proof (cases "CHR ''/'' \<in> set (tl (dropWhile (\<lambda>x. x \<noteq> CHR ''/'') s))")
  case True
  with assms show ?thesis
    by (simp add: Namespace_def SplitN_3 split_loop_2 Let_def index_def)
next
  case False
  then have "takeWhile (\<lambda>x. x \<noteq> CHR ''/'') (tl (dropWhile (\<lambda>x. x \<noteq> CHR ''/'') s)) =
      tl (dropWhile (\<lambda>x. x \<noteq> CHR ''/'') s)"
    by (intro takeWhile_eq_all_conv [THEN iffD2]) auto
  moreover from assms False have "Namespace (ResourceID s) = Inr (tl (dropWhile (\<lambda>x. x \<noteq> CHR ''/'') s))"
    by (simp add: Namespace_def SplitN_3 split_loop_2 Let_def index_def)
  ultimately show ?thesis by (rule ssubst)
qed

lemma length_SplitN_3: "length (SplitN s c 3) < 2 \<longleftrightarrow> c \<notin> set s"
  by (simp add: SplitN_3 split_loop_2 Let_def)

lemma length_SplitN_3_le: "length (SplitN s c 3) \<le> 3 \<and> 1 \<le> length (SplitN s c 3)"
  by (simp add: SplitN_3 split_loop_2 Let_def)

section \<open>ResourceID: construction and namespace extraction\<close>

lemma NewResourceID_eq:
  "NewResourceID kind namespace name =
     ResourceID (string_of_ResourceKind kind @ CHR ''/'' # namespace @ CHR ''/'' # name)"
  by (simp add: NewResourceID_def Builder_zero_def Grow_def WriteString_def WriteRune_def
      Builder_String_def)

lemma Namespace_encoded:
  assumes "CHR ''/'' \<notin> set kind" and "CHR ''/'' \<notin> set namespace"
  shows "Namespace (ResourceID (kind @ CHR ''/'' # namespace @ CHR ''/'' # name)) = Inr namespace"
proof -
  let ?s = "kind @ CHR ''/'' # namespace @ CHR ''/'' # name"
  have "dropWhile (\<lambda>x. x \<noteq> CHR ''/'') ?s = CHR ''/'' # namespace @ CHR ''/'' # name"
    using assms(1) by (auto simp: dropWhile_append3)
  moreover have "takeWhile (\<lambda>x. x \<noteq> CHR ''/'') (namespace @ CHR ''/'' # name) = namespace"
    using assms(2) by (auto simp: takeWhile_tail)
  moreover have "CHR ''/'' \<in> set ?s" by simp
  ultimately show ?thesis by (simp add: Namespace_sep)
qed

lemma Namespace_one_sep:
  assumes "CHR ''/'' \<notin> set a" and "CHR ''/'' \<notin> set b"
  shows "Namespace (ResourceID (a @ CHR ''/'' # b)) = Inr b"
proof -
  let ?s = "a @ CHR ''/'' # b"
  have "dropWhile (\<lambda>x. x \<noteq> CHR ''/'') ?s = CHR ''/'' # b"
    using assms(1) by (auto simp: dropWhile_append3)
  moreover have "takeWhile (\<lambda>x. x \<noteq> CHR ''/'') b = b"
    using assms(2) by (intro takeWhile_eq_all_conv [THEN iffD2]) auto
  moreover have "CHR ''/'' \<in> set ?s" by simp
  ultimately show ?thesis by (simp add: Namespace_sep)
qed

text \<open>
  Claim C2. For every kind, namespace and name, \<open>NewResourceID\<close> produces exactly the
  string \<open>kind + "/" + namespace + "/" + name\<close>; both delimiters are there also when
  namespace and name are empty; \<open>NewResourceID(ResourceKindCNP, "kube-system", "allow-dns")\<close>
  is \<open>"cnp/kube-system/allow-dns"\<close> and \<open>NewResourceID(ResourceKindDaemon, "", "startup")\<close>
  is \<open>"daemon//startup"\<close>.
\<close>

theorem NewResourceID_format:
  "NewResourceID kind namespace name =
     ResourceID (string_of_ResourceKind kind @ ''/'' @ namespace @ ''/'' @ name)
   \<and> NewResourceID kind '''' '''' = ResourceID (string_of_ResourceKind kind @ ''//'')
   \<and> NewResourceID ResourceKindCNP ''kube-system'' ''allow-dns'' =
       ResourceID ''cnp/kube-system/allow-dns''
   \<and> NewResourceID ResourceKindDaemon '''' ''startup'' = ResourceID ''daemon//startup''"
  by (simp add: NewResourceID_eq ResourceKindCNP_def ResourceKindDaemon_def)

text \<open>Each of the eight kinds the package defines is free of the separator.\<close>

lemma defined_kinds_no_separator:
  "kind \<in> defined_kinds \<Longrightarrow> CHR ''/'' \<notin> set (string_of_ResourceKind kind)"
  by (auto simp: defined_kinds_def ResourceKindCCNP_def ResourceKindCIDRGroup_def
      ResourceKindCNP_def ResourceKindDaemon_def ResourceKindEndpoint_def ResourceKindFile_def
      ResourceKindNetpol_def ResourceKindNode_def)

text \<open>
  Claim C1. For every kind, namespace and name such that namespace and name contain no
  \<open>/\<close>, \<open>NewResourceID(kind, namespace, name).Namespace()\<close> returns exactly the namespace;
  in particular, for every kind, \<open>NewResourceID(kind, "", "").Namespace()\<close> returns the empty
  string. The kind ranges over the defined \<open>ResourceKind\<close> values, which is the contract of
  the type.
\<close>

theorem Namespace_roundtrip:
  assumes "kind \<in> defined_kinds"
    and "CHR ''/'' \<notin> set namespace"
    and "CHR ''/'' \<notin> set name"
  shows "Namespace (NewResourceID kind namespace name) = Inr namespace
    \<and> Namespace (NewResourceID kind '''' '''') = Inr ''''"
proof -
  note kind = defined_kinds_no_separator [OF assms(1)]
  from Namespace_encoded [OF kind assms(2), of name] Namespace_encoded [OF kind, of "[]" "[]"]
  show ?thesis
    by (simp add: NewResourceID_eq)
qed

text \<open>Claim C1 at the kind \<open>cnp\<close>, the namespace \<open>kube-system\<close> and the name \<open>allow-dns\<close>.\<close>

theorem Namespace_roundtrip_witness:
  "ResourceKindCNP \<in> defined_kinds
   \<and> CHR ''/'' \<notin> set ''kube-system'' \<and> CHR ''/'' \<notin> set ''allow-dns''
   \<and> Namespace (NewResourceID ResourceKindCNP ''kube-system'' ''allow-dns'') = Inr ''kube-system''
   \<and> Namespace (NewResourceID ResourceKindCNP '''' '''') = Inr ''''"
  using Namespace_roundtrip [of ResourceKindCNP "''kube-system''" "''allow-dns''"]
  by (simp add: defined_kinds_def)

text \<open>
  The type does not enforce that contract. A kind outside the defined set that contains the
  separator moves the split: the encoding of the kind \<open>"a/b"\<close>, the namespace \<open>"x"\<close> and the
  name \<open>"y"\<close> is \<open>"a/b/x/y"\<close>, whose second part is \<open>"b"\<close>.
\<close>

lemma Namespace_kind_outside_defined_kinds:
  "ResourceKind ''a/b'' \<notin> defined_kinds
   \<and> Namespace (NewResourceID (ResourceKind ''a/b'') ''x'' ''y'') = Inr ''b''"
  by (simp add: NewResourceID_eq Namespace_sep defined_kinds_def ResourceKindCCNP_def
      ResourceKindCIDRGroup_def ResourceKindCNP_def ResourceKindDaemon_def
      ResourceKindEndpoint_def ResourceKindFile_def ResourceKindNetpol_def ResourceKindNode_def)

subsection \<open>Namespace on arbitrary strings\<close>

lemma Namespace_middle:
  "Namespace (ResourceID s) =
     Inr (takeWhile (\<lambda>x. x \<noteq> CHR ''/'') (drop 1 (dropWhile (\<lambda>x. x \<noteq> CHR ''/'') s)))"
proof (cases "CHR ''/'' \<in> set s")
  case True
  then show ?thesis by (simp add: Namespace_sep drop_Suc)
next
  case False
  then have "dropWhile (\<lambda>x. x \<noteq> CHR ''/'') s = []" by auto
  then have "takeWhile (\<lambda>x. x \<noteq> CHR ''/'') (drop 1 (dropWhile (\<lambda>x. x \<noteq> CHR ''/'') s)) = []"
    by (simp only: drop_Nil takeWhile.simps)
  with Namespace_no_sep [OF False] show ?thesis by (simp only:)
qed

lemma Namespace_parts:
  "Namespace (ResourceID s) =
     (if length (SplitN s CHR ''/'' 3) < 2 then Inr '''' else Inr (SplitN s CHR ''/'' 3 ! 1))"
  by (simp add: Namespace_def index_def Let_def)

lemma single_separator_split:
  assumes "count_list s c = 1"
  shows "\<exists>a b. s = a @ c # b \<and> c \<notin> set a \<and> c \<notin> set b"
proof -
  from assms have "c \<in> set s"
    using count_list_0_iff [of s c] by auto
  then obtain a b where ab: "s = a @ c # b" "c \<notin> set a"
    by (auto dest: split_list_first)
  with assms have "count_list b c = 0"
    by simp
  then have "c \<notin> set b"
    by (simp add: count_list_0_iff)
  with ab show ?thesis by blast
qed

text \<open>
  Claim C4. \<open>Namespace()\<close> is total on every string: it never panics (the result is
  always \<open>Inr\<close>, the index \<open>parts[1]\<close> being in range whenever it is read). It splits
  the string on \<open>/\<close> into at least one and at most three parts and returns the second
  part, the empty string when there are fewer than two parts. That second part is the middle
  segment: the text after the first \<open>/\<close> up to the next \<open>/\<close>, or up to the end. Hence a
  name that itself contains \<open>/\<close> leaves the namespace extraction as it is.
\<close>

theorem Namespace_total:
  "(\<exists>ns. Namespace r = Inr ns)
   \<and> 1 \<le> length (SplitN (string_of_ResourceID r) CHR ''/'' 3)
   \<and> length (SplitN (string_of_ResourceID r) CHR ''/'' 3) \<le> 3
   \<and> Namespace r =
       (if length (SplitN (string_of_ResourceID r) CHR ''/'' 3) < 2 then Inr ''''
        else Inr (SplitN (string_of_ResourceID r) CHR ''/'' 3 ! 1))
   \<and> Namespace r =
       Inr (takeWhile (\<lambda>x. x \<noteq> CHR ''/'')
             (drop 1 (dropWhile (\<lambda>x. x \<noteq> CHR ''/'') (string_of_ResourceID r))))
   \<and> (CHR ''/'' \<notin> set kind \<and> CHR ''/'' \<notin> set namespace \<longrightarrow>
        Namespace (NewResourceID (ResourceKind kind) namespace name) = Inr namespace)"
proof (cases r)
  case (ResourceID s)
  have "\<exists>ns. Namespace (ResourceID s) = Inr ns"
    using Namespace_middle [of s] by blast
  moreover have "1 \<le> length (SplitN s CHR ''/'' 3)" "length (SplitN s CHR ''/'' 3) \<le> 3"
    using length_SplitN_3_le [of s "CHR ''/''"] by simp_all
  moreover note Namespace_parts [of s] Namespace_middle [of s]
  moreover have "CHR ''/'' \<notin> set kind \<and> CHR ''/'' \<notin> set namespace \<longrightarrow>
      Namespace (NewResourceID (ResourceKind kind) namespace name) = Inr namespace"
    by (simp add: NewResourceID_eq Namespace_encoded)
  ultimately show ?thesis
    unfolding ResourceID ResourceID.sel by (intro conjI)
qed

text \<open>Claim C4 at the name \<open>allow/dns/53\<close>, which contains the separator twice.\<close>

theorem Namespace_total_witness:
  "CHR ''/'' \<notin> set ''cnp'' \<and> CHR ''/'' \<notin> set ''kube-system''
   \<and> Namespace (NewResourceID (ResourceKind ''cnp'') ''kube-system'' ''allow/dns/53'') =
       Inr ''kube-system''
   \<and> NewResourceID (ResourceKind ''cnp'') ''kube-system'' ''allow/dns/53'' =
       ResourceID ''cnp/kube-system/allow/dns/53''"
  using Namespace_total [of "ResourceID ''cnp''" "''cnp''" "''kube-system''" "''allow/dns/53''"]
  by (simp add: NewResourceID_eq)

text \<open>
  Claim C10. For a string with exactly one \<open>/\<close> (an encoding that lacks the second
  delimiter, as \<open>"kind/ns"\<close>), \<open>Namespace()\<close> returns the text after that \<open>/\<close>, not the
  empty string. The branch that returns the empty string for fewer than two parts is taken
  exactly for the strings with no \<open>/\<close> at all.
\<close>

theorem Namespace_single_separator:
  "(CHR ''/'' \<notin> set a \<and> CHR ''/'' \<notin> set b \<longrightarrow> Namespace (ResourceID (a @ ''/'' @ b)) = Inr b)
   \<and> (count_list s CHR ''/'' = 1 \<longrightarrow>
        Namespace (ResourceID s) = Inr (tl (dropWhile (\<lambda>x. x \<noteq> CHR ''/'') s)))
   \<and> (length (SplitN s CHR ''/'' 3) < 2 \<longleftrightarrow> CHR ''/'' \<notin> set s)
   \<and> Namespace (ResourceID ''kind/ns'') = Inr ''ns''"
proof -
  have ab: "CHR ''/'' \<notin> set a \<and> CHR ''/'' \<notin> set b \<longrightarrow> Namespace (ResourceID (a @ ''/'' @ b)) = Inr b"
    for a b
    by (simp add: Namespace_one_sep)
  have "Namespace (ResourceID s) = Inr (tl (dropWhile (\<lambda>x. x \<noteq> CHR ''/'') s))"
    if "count_list s CHR ''/'' = 1"
  proof -
    from single_separator_split [OF that] obtain a b
      where s: "s = a @ CHR ''/'' # b" and a: "CHR ''/'' \<notin> set a" and b: "CHR ''/'' \<notin> set b"
      by blast
    from a have "dropWhile (\<lambda>x. x \<noteq> CHR ''/'') s = CHR ''/'' # b"
      unfolding s by (auto simp: dropWhile_append3)
    with Namespace_one_sep [OF a b] show ?thesis
      unfolding s by simp
  qed
  moreover have "Namespace (ResourceID ''kind/ns'') = Inr ''ns''"
    using ab [of "''kind''" "''ns''"] by simp
  moreover note ab [of a b] length_SplitN_3 [of s "CHR ''/''"]
  ultimately show ?thesis by blast
qed

text \<open>Claim C10 at \<open>"node/worker-1"\<close>.\<close>

theorem Namespace_single_separator_witness:
  "CHR ''/'' \<notin> set ''node'' \<and> CHR ''/'' \<notin> set ''worker-1''
   \<and> Namespace (ResourceID ''node/worker-1'') = Inr ''worker-1''
   \<and> count_list ''node/worker-1'' CHR ''/'' = 1
   \<and> tl (dropWhile (\<lambda>x. x \<noteq> CHR ''/'') ''node/worker-1'') = ''worker-1''"
  using Namespace_single_separator [of "''node''" "''worker-1''" "''node/worker-1''"]
  by simp

section \<open>Decimal rendering\<close>

lemma digits_nth:
  assumes "d < 10"
  shows "digits ! d \<in> set ''0123456789'' \<and> digit_value (digits ! d) = d"
proof -
  from assms have "d = 0 \<or> d = 1 \<or> d = 2 \<or> d = 3 \<or> d = 4 \<or> d = 5 \<or> d = 6 \<or> d = 7 \<or> d = 8 \<or> d = 9"
    by arith
  then show ?thesis
    by (elim disjE) (simp_all add: digits_def digit_value_def)
qed

lemma formatDec_digits: "set (formatDec u) \<subseteq> set ''0123456789''"
proof (induction u rule: formatDec.induct)
  case (1 u)
  show ?case
  proof (cases "u < 10")
    case True
    with digits_nth [of u] show ?thesis
      by (subst formatDec.simps) simp
  next
    case False
    have "u mod 10 < 10" by simp
    from digits_nth [OF this] "1.IH" [OF False] False show ?thesis
      by (subst formatDec.simps) simp
  qed
qed

lemma decimal_value_snoc:
  "decimal_value (s @ [c]) = 10 * decimal_value s + digit_value c"
  by (simp add: decimal_value_def)

lemma decimal_value_formatDec: "decimal_value (formatDec u) = u"
proof (induction u rule: formatDec.induct)
  case (1 u)
  show ?case
  proof (cases "u < 10")
    case True
    with digits_nth [of u] show ?thesis
      by (subst formatDec.simps) (simp add: decimal_value_def)
  next
    case False
    have "u mod 10 < 10" by simp
    from digits_nth [OF this] "1.IH" [OF False] False show ?thesis
      by (subst formatDec.simps) (simp add: decimal_value_snoc)
  qed
qed

lemma formatDec_nonempty: "formatDec u \<noteq> []"
  by (subst formatDec.simps) simp

lemma formatDec_no_leading_zero: "0 < u \<Longrightarrow> hd (formatDec u) \<noteq> CHR ''0''"
proof (induction u rule: formatDec.induct)
  case (1 u)
  show ?case
  proof (cases "u < 10")
    case True
    with "1.prems" have "u = 1 \<or> u = 2 \<or> u = 3 \<or> u = 4 \<or> u = 5 \<or> u = 6 \<or> u = 7 \<or> u = 8 \<or> u = 9"
      by arith
    then show ?thesis
      by (elim disjE) (simp_all add: formatDec.simps digits_def)
  next
    case False
    then have "0 < u div 10" by simp
    from "1.IH" [OF False this] False formatDec_nonempty [of "u div 10"] show ?thesis
      by (subst formatDec.simps) simp
  qed
qed

lemma formatDec_0: "formatDec 0 = ''0''"
  by (simp add: formatDec.simps digits_def)

lemma formatDec_examples: "formatDec 7 = ''7'' \<and> formatDec 42 = ''42'' \<and> formatDec 255 = ''255''"
  by (simp add: formatDec.simps digits_def)

section \<open>EncryptKey\<close>

text \<open>
  Claim C8. \<open>EncryptKeyEmpty.IsValid()\<close> is false; for every \<open>k \<noteq> 0\<close>,
  \<open>EncryptKey(k).IsValid()\<close> is true; and for every \<open>k\<close>, \<open>EncryptKey(k).String()\<close> is the
  decimal string of \<open>k\<close>: a non-empty string of the digits \<open>0\<close> to \<open>9\<close> that reads back as
  the unsigned value of \<open>k\<close>, with no leading zero unless \<open>k = 0\<close>, whose string is \<open>"0"\<close>.
\<close>

theorem EncryptKey_validity_and_String:
  "\<not> EncryptKey_IsValid EncryptKeyEmpty
   \<and> (k \<noteq> 0 \<longrightarrow> EncryptKey_IsValid (EncryptKey k))
   \<and> set (EncryptKey_String (EncryptKey k)) \<subseteq> set ''0123456789''
   \<and> EncryptKey_String (EncryptKey k) \<noteq> ''''
   \<and> decimal_value (EncryptKey_String (EncryptKey k)) = unat k
   \<and> (k \<noteq> 0 \<longrightarrow> hd (EncryptKey_String (EncryptKey k)) \<noteq> CHR ''0'')
   \<and> EncryptKey_String (EncryptKey 0) = ''0''
   \<and> EncryptKey_String (EncryptKey 7) = ''7''
   \<and> EncryptKey_String (EncryptKey 255) = ''255''"
proof -
  have str: "EncryptKey_String (EncryptKey w) = formatDec (unat w)" for w
    by (simp add: EncryptKey_String_def Itoa_def)
  have valid: "\<not> EncryptKey_IsValid EncryptKeyEmpty"
    by (simp add: EncryptKey_IsValid_def)
  have valid': "k \<noteq> 0 \<longrightarrow> EncryptKey_IsValid (EncryptKey k)"
    by (simp add: EncryptKey_IsValid_def EncryptKeyEmpty_def)
  have chars: "set (EncryptKey_String (EncryptKey k)) \<subseteq> set ''0123456789''"
    unfolding str by (rule formatDec_digits)
  have nonempty: "EncryptKey_String (EncryptKey k) \<noteq> []"
    unfolding str by (rule formatDec_nonempty)
  have reads: "decimal_value (EncryptKey_String (EncryptKey k)) = unat k"
    unfolding str by (rule decimal_value_formatDec)
  have leading: "k \<noteq> 0 \<longrightarrow> hd (EncryptKey_String (EncryptKey k)) \<noteq> CHR ''0''"
    unfolding str by (simp add: formatDec_no_leading_zero unat_gt_0)
  have examples: "EncryptKey_String (EncryptKey 0) = ''0''"
    "EncryptKey_String (EncryptKey 7) = ''7''"
    "EncryptKey_String (EncryptKey 255) = ''255''"
    unfolding str using formatDec_0 formatDec_examples by simp_all
  from valid valid' chars nonempty reads leading examples show ?thesis
    by (intro conjI)
qed

text \<open>Claim C8 at the key 5.\<close>

theorem EncryptKey_validity_and_String_witness:
  "(5 :: 8 word) \<noteq> 0 \<and> EncryptKey_IsValid (EncryptKey 5)
   \<and> decimal_value (EncryptKey_String (EncryptKey 5)) = 5
   \<and> hd (EncryptKey_String (EncryptKey 5)) \<noteq> CHR ''0''"
  using EncryptKey_validity_and_String [of 5] by simp

section \<open>RequestedIdentity\<close>

text \<open>
  Claim C9. \<open>RequestedIdentity(0).IsValid()\<close> is false; for every \<open>v \<noteq> 0\<close>,
  \<open>RequestedIdentity(v).IsValid()\<close> is true and \<open>RequestedIdentity(v).ID()\<close> is
  \<open>NumericIdentity(v)\<close>, the number \<open>v\<close> itself.
\<close>

theorem RequestedIdentity_validity_and_ID:
  "\<not> RequestedIdentity_IsValid (RequestedIdentity (0 :: 'n :: zero))
   \<and> ((v :: 'n) \<noteq> 0 \<longrightarrow>
        RequestedIdentity_IsValid (RequestedIdentity v) \<and> ID (RequestedIdentity v) = v)"
  by (simp add: RequestedIdentity_IsValid_def ID_def)

text \<open>Claim C9 at the identity 5 of a 32-bit numeric identity type.\<close>

theorem RequestedIdentity_validity_and_ID_witness:
  "(5 :: 32 word) \<noteq> 0 \<and> RequestedIdentity_IsValid (RequestedIdentity (5 :: 32 word))
   \<and> ID (RequestedIdentity (5 :: 32 word)) = 5"
  using RequestedIdentity_validity_and_ID [of "5 :: 32 word"] by simp

section \<open>EndpointFlags\<close>

lemma EndpointFlags_Uint8_eq:
  "EndpointFlags_Uint8 e = (if flagSkipTunnel e then 1 else 0)"
  by (simp add: EndpointFlags_Uint8_def FlagSkipTunnel_def)

text \<open>
  Claim C3. For every \<open>EndpointFlags\<close> value \<open>e\<close>, bit 0 (value 1) of \<open>e.Uint8()\<close> is set
  if and only if the skip-tunnel flag is set, and bits 1 to 7 are zero, so \<open>e.Uint8()\<close> is
  either 0 or 1.
\<close>

theorem EndpointFlags_Uint8_layout:
  "bit (EndpointFlags_Uint8 e) 0 = flagSkipTunnel e
   \<and> \<not> bit (EndpointFlags_Uint8 e) (Suc n)
   \<and> EndpointFlags_Uint8 e AND 0xFE = 0
   \<and> (EndpointFlags_Uint8 e = 0 \<or> EndpointFlags_Uint8 e = 1)
   \<and> FlagSkipTunnel = 1"
  by (simp add: EndpointFlags_Uint8_eq FlagSkipTunnel_def bit_Suc)

text \<open>
  Claim C5. \<open>SetSkipTunnel\<close> always marks the value initialized: for every \<open>e\<close>, after
  \<open>e.SetSkipTunnel(true)\<close>, \<open>e.IsValid()\<close> is true and \<open>e.Uint8()\<close> is 1; after
  \<open>e.SetSkipTunnel(false)\<close>, \<open>e.IsValid()\<close> is true and \<open>e.Uint8()\<close> is 0. It is the only
  mutator: the other two methods of the type leave the value as it is.
\<close>

theorem SetSkipTunnel_effect:
  "EndpointFlags_IsValid (SetSkipTunnel e True)
   \<and> EndpointFlags_Uint8 (SetSkipTunnel e True) = 1
   \<and> EndpointFlags_IsValid (SetSkipTunnel e False)
   \<and> EndpointFlags_Uint8 (SetSkipTunnel e False) = 0
   \<and> call e Call_IsValid = e \<and> call e Call_Uint8 = e"
  by (simp add: EndpointFlags_IsValid_def SetSkipTunnel_def EndpointFlags_Uint8_eq)

text \<open>
  Claim C6. A freshly constructed (zero-value) \<open>EndpointFlags\<close> has \<open>IsValid()\<close> false and
  \<open>Uint8()\<close> equal to 0.
\<close>

theorem EndpointFlags_zero_value:
  "\<not> EndpointFlags_IsValid EndpointFlags_zero \<and> EndpointFlags_Uint8 EndpointFlags_zero = 0"
  by (simp add: EndpointFlags_IsValid_def EndpointFlags_zero_def EndpointFlags_Uint8_eq)

lemma call_keeps_valid: "EndpointFlags_IsValid e \<Longrightarrow> EndpointFlags_IsValid (call e c)"
  by (cases c) (simp_all add: EndpointFlags_IsValid_def SetSkipTunnel_def)

lemma calls_keep_valid: "EndpointFlags_IsValid e \<Longrightarrow> EndpointFlags_IsValid (calls e cs)"
  unfolding calls_def
  by (induction cs arbitrary: e) (simp_all add: call_keeps_valid)

text \<open>
  Claim C7. Initialization is one-way: once a setter call has made the value initialized
  (\<open>IsValid()\<close> true), it stays initialized after any further sequence of calls of the
  type's methods.
\<close>

theorem EndpointFlags_initialized_is_terminal:
  "EndpointFlags_IsValid (calls (SetSkipTunnel e skip) cs)
   \<and> (EndpointFlags_IsValid e \<longrightarrow> EndpointFlags_IsValid (calls e cs))"
proof -
  have "EndpointFlags_IsValid (SetSkipTunnel e skip)"
    by (simp add: EndpointFlags_IsValid_def SetSkipTunnel_def)
  then show ?thesis
    by (simp add: calls_keep_valid)
qed

text \<open>Claim C7 for a zero value that is set, cleared and then read twice.\<close>

theorem EndpointFlags_initialized_is_terminal_witness:
  "EndpointFlags_IsValid (SetSkipTunnel EndpointFlags_zero True)
   \<and> EndpointFlags_IsValid
        (calls (SetSkipTunnel EndpointFlags_zero True)
           [Call_SetSkipTunnel False, Call_Uint8, Call_IsValid])"
  using EndpointFlags_initialized_is_terminal
    [of "SetSkipTunnel EndpointFlags_zero True" True
        "[Call_SetSkipTunnel False, Call_Uint8, Call_IsValid]"]
  by (simp add: EndpointFlags_IsValid_def SetSkipTunnel_def)

end
